theory Spec2Isabelle
  imports Complex_Main
begin

section \<open>Auto-scaling of compose services\<close>

text \<open>
  The development follows the scale command of the compose extension: the three
  strategy functions, the strategy switch and the replica limits inside
  \<open>checkAndScale\<close>, and the loop of \<open>runAutoScale\<close>.

  Go's \<open>float64\<close> is modelled by the reals: thresholds and usages are percentages, and
  the products taken (\<open>x * 0.5\<close>, \<open>x * 0.7\<close>, \<open>x * 1.2\<close>, \<open>n * 1.5\<close>,
  \<open>n * 0.75\<close>) are read without rounding; \<open>NaN\<close> and infinities are left out. Go's
  \<open>int\<close> is modelled by the integers: replica counts stay far below \<open>2 ^ 63\<close>.
\<close>

subsection \<open>Options\<close>

text \<open>The fields of \<open>scaleOptions\<close>, without the embedded project options.\<close>

record scaleOptions =
  noDeps :: bool
  auto :: bool
  cpuThreshold :: real
  memThreshold :: real
  minReplicas :: int
  maxReplicas :: int
  interval :: int
  strategy :: string

text \<open>The values \<open>scaleCommand\<close> starts from, which are also the defaults of the flags.\<close>

definition defaultOptions :: scaleOptions where
  "defaultOptions =
     \<lparr>noDeps = False, auto = False, cpuThreshold = 70, memThreshold = 70,
      minReplicas = 1, maxReplicas = 10, interval = 30, strategy = ''balanced''\<rparr>"

subsection \<open>Numeric conversions\<close>

text \<open>
  \<open>float64(n)\<close> is \<open>of_int n\<close>. The conversion \<open>int(x)\<close> of Go drops the fraction,
  that is, it rounds toward zero.
\<close>

definition intOfFloat :: "real \<Rightarrow> int" where
  "intOfFloat x = (if 0 \<le> x then \<lfloor>x\<rfloor> else \<lceil>x\<rceil>)"

subsection \<open>The strategies\<close>

definition calculatePerformanceScale :: "int \<Rightarrow> real \<Rightarrow> real \<Rightarrow> scaleOptions \<Rightarrow> int" where
  "calculatePerformanceScale currentScale cpuUsage memUsage opts =
     (if cpuUsage > cpuThreshold opts \<or> memUsage > memThreshold opts
      then intOfFloat (of_int currentScale * 1.5)
      else if cpuUsage < cpuThreshold opts * 0.5 \<and> memUsage < memThreshold opts * 0.5
              \<and> currentScale > minReplicas opts
      then currentScale - 1
      else currentScale)"

text \<open>
  In the second test of the efficiency strategy \<open>&&\<close> binds tighter than \<open>||\<close>:
  the source reads \<open>a || b && c\<close>.
\<close>

definition calculateEfficiencyScale :: "int \<Rightarrow> real \<Rightarrow> real \<Rightarrow> scaleOptions \<Rightarrow> int" where
  "calculateEfficiencyScale currentScale cpuUsage memUsage opts =
     (if cpuUsage > cpuThreshold opts * 1.2 \<or> memUsage > memThreshold opts * 1.2
      then currentScale + 1
      else if cpuUsage < cpuThreshold opts
              \<or> (memUsage < memThreshold opts \<and> currentScale > minReplicas opts)
      then intOfFloat (of_int currentScale * 0.75)
      else currentScale)"

definition calculateBalancedScale :: "int \<Rightarrow> real \<Rightarrow> real \<Rightarrow> scaleOptions \<Rightarrow> int" where
  "calculateBalancedScale currentScale cpuUsage memUsage opts =
     (if cpuUsage > cpuThreshold opts \<or> memUsage > memThreshold opts
      then currentScale + 1
      else if cpuUsage < cpuThreshold opts * 0.7 \<and> memUsage < memThreshold opts * 0.7
              \<and> currentScale > minReplicas opts
      then currentScale - 1
      else currentScale)"

text \<open>
  The \<open>switch opts.strategy\<close> of \<open>checkAndScale\<close>: two named cases and a default.
\<close>

definition strategyScale :: "scaleOptions \<Rightarrow> int \<Rightarrow> real \<Rightarrow> real \<Rightarrow> int" where
  "strategyScale opts currentScale cpuUsage memUsage =
     (if strategy opts = ''performance''
      then calculatePerformanceScale currentScale cpuUsage memUsage opts
      else if strategy opts = ''efficiency''
      then calculateEfficiencyScale currentScale cpuUsage memUsage opts
      else calculateBalancedScale currentScale cpuUsage memUsage opts)"

text \<open>
  The two tests that follow the switch (``apply scale limits''), in the order of the
  source: first the lower limit, then the upper one.
\<close>

definition applyScaleLimits :: "scaleOptions \<Rightarrow> int \<Rightarrow> int" where
  "applyScaleLimits opts newScale =
     (let newScale1 = (if newScale < minReplicas opts then minReplicas opts else newScale)
      in if newScale1 > maxReplicas opts then maxReplicas opts else newScale1)"

subsection \<open>Services, the project and the backend\<close>

datatype error = Error string

text \<open>
  Of a service's configuration the code reads the \<open>Scale\<close> field only, a pointer to
  an integer that may be nil. \<open>SetScale\<close> (of the compose-go library) stores a pointer
  to the given count in it; the copy it also makes into the deploy section, when there is
  one, is not read by this code and is left out.
\<close>

record ServiceConfig =
  Scale :: "int option"

definition SetScale :: "int \<Rightarrow> ServiceConfig \<Rightarrow> ServiceConfig" where
  "SetScale scale service = service\<lparr>Scale := Some scale\<rparr>"

type_synonym Services = "string \<rightharpoonup> ServiceConfig"

record Project =
  Name :: string
  Services :: Services

text \<open>
  The lines written to standard output, one constructor for each format string.
  \<open>AutoScalingServices\<close> stands for the line that lists the sorted names of the target
  services; the names are not part of the model.
\<close>

datatype line =
    Starting string
  | Thresholds real real
  | ReplicaRange int int
  | CheckInterval int
  | AutoScalingServices
  | Stopped
  | ErrorDuringAutoScaling error
  | WarnUsage string error
  | ServiceStatus string int real real
  | Scaling string int int
  | WarnScale string error
  | Scaled string int

text \<open>
  What a run changes: the service map of the project (a Go map, shared by reference),
  the calls made to \<open>backend.Scale\<close> (the service named in the call and the scale the
  project carries for it at that moment), and the output. \<open>ticks\<close> counts the calls of
  \<open>checkAndScale\<close>; it is bookkeeping of the model and no code reads it.
\<close>

record world =
  projectServices :: Services
  backendCalls :: "(string \<times> int) list"
  stdout :: "line list"
  ticks :: nat

text \<open>
  What one pass of \<open>checkAndScale\<close> meets outside the function: the resource usage
  reported for a service (or an error), the answer of \<open>backend.Scale\<close> to a project and
  a service name (\<open>None\<close> is Go's nil error), and the order in which \<open>range\<close> yields
  the keys of the service map, which Go leaves open.
\<close>

record tickEnv =
  resourceUsage :: "string \<Rightarrow> error + real \<times> real"
  backendScale :: "Services \<Rightarrow> string \<Rightarrow> error option"
  rangeOrder :: "string list"

text \<open>
  The body of \<open>getServiceResourceUsage\<close> in the source is a placeholder: two draws
  \<open>r1\<close>, \<open>r2\<close> of \<open>rand.Float64()\<close> give usages around 50, and the error is always
  nil.
\<close>

definition getServiceResourceUsage :: "real \<Rightarrow> real \<Rightarrow> error + real \<times> real" where
  "getServiceResourceUsage r1 r2 = Inr (50 + (r1 * 20 - 10), 50 + (r2 * 20 - 10))"

text \<open>
  \<open>checkAndScale\<close> receives the project and a service map. \<open>runAutoScale\<close> passes
  either the project's own map (the same Go map, so that a write to
  \<open>project.Services\<close> is seen by the loop) or a filtered map built once, which is
  never written afterwards.
\<close>

datatype servicesArg = ProjectServices | FilteredServices Services

definition servicesAt :: "servicesArg \<Rightarrow> world \<Rightarrow> Services" where
  "servicesAt services w =
     (case services of ProjectServices \<Rightarrow> projectServices w | FilteredServices m \<Rightarrow> m)"

definition println :: "line \<Rightarrow> world \<Rightarrow> world" where
  "println l w = w\<lparr>stdout := stdout w @ [l]\<rparr>"

definition currentScaleOf :: "ServiceConfig \<Rightarrow> int" where
  "currentScaleOf service = (case Scale service of None \<Rightarrow> 1 | Some n \<Rightarrow> n)"

subsection \<open>One pass over the services\<close>

text \<open>
  The body of the \<open>for ... range services\<close> loop for the key \<open>serviceName\<close>. A
  key that the map does not hold is never yielded; the model leaves the world as it is.
\<close>

definition scaleOneService ::
  "tickEnv \<Rightarrow> scaleOptions \<Rightarrow> servicesArg \<Rightarrow> string \<Rightarrow> world \<Rightarrow> world" where
  "scaleOneService env opts services serviceName w =
     (case servicesAt services w serviceName of
        None \<Rightarrow> w
      | Some service \<Rightarrow>
          (let currentScale = currentScaleOf service in
           case resourceUsage env serviceName of
             Inl err \<Rightarrow> println (WarnUsage serviceName err) w
           | Inr (cpuUsage, memUsage) \<Rightarrow>
               (let w1 = println (ServiceStatus serviceName currentScale cpuUsage memUsage) w;
                    newScale = applyScaleLimits opts
                                 (strategyScale opts currentScale cpuUsage memUsage)
                in if newScale \<noteq> currentScale
                   then
                     (let w2 = println (Scaling serviceName currentScale newScale) w1;
                          w3 = w2\<lparr>projectServices :=
                                    (projectServices w2)(serviceName \<mapsto> SetScale newScale service)\<rparr>;
                          w4 = w3\<lparr>backendCalls := backendCalls w3 @ [(serviceName, newScale)]\<rparr>
                      in case backendScale env (projectServices w4) serviceName of
                           Some err \<Rightarrow> println (WarnScale serviceName err) w4
                         | None \<Rightarrow> println (Scaled serviceName newScale) w4)
                   else w1)))"

text \<open>\<open>checkAndScale\<close> runs the body for each key and returns nil.\<close>

definition checkAndScale ::
  "tickEnv \<Rightarrow> scaleOptions \<Rightarrow> servicesArg \<Rightarrow> world \<Rightarrow> error option \<times> world" where
  "checkAndScale env opts services w =
     (None, fold (scaleOneService env opts services) (rangeOrder env) w)"

subsection \<open>The loop\<close>

text \<open>
  Each element of the list is one iteration in which the context is not yet done; at the
  end of the list \<open>ctx.Done()\<close> is ready. The sleep between iterations has no effect
  on the world.
\<close>

fun autoScaleLoop ::
  "scaleOptions \<Rightarrow> servicesArg \<Rightarrow> tickEnv list \<Rightarrow> world \<Rightarrow> world" where
  "autoScaleLoop opts services [] w = println Stopped w"
| "autoScaleLoop opts services (env # envs) w =
     (case checkAndScale env opts services (w\<lparr>ticks := ticks w + 1\<rparr>) of
        (Some err, w') \<Rightarrow> autoScaleLoop opts services envs (println (ErrorDuringAutoScaling err) w')
      | (None, w') \<Rightarrow> autoScaleLoop opts services envs w')"

text \<open>
  \<open>runAutoScale\<close>: \<open>newBackend\<close> is the outcome of creating the compose service,
  \<open>toProject\<close> that of loading the project for the named services. With names given,
  the target map is a new map holding the named services that the project has.
\<close>

definition filterServices :: "Services \<Rightarrow> string list \<Rightarrow> Services" where
  "filterServices m names = (\<lambda>n. if n \<in> set names then m n else None)"

definition startWorld :: "scaleOptions \<Rightarrow> Project \<Rightarrow> world" where
  "startWorld opts project =
     \<lparr>projectServices = Services project, backendCalls = [],
      stdout = [Starting (strategy opts),
                Thresholds (cpuThreshold opts) (memThreshold opts),
                ReplicaRange (minReplicas opts) (maxReplicas opts),
                CheckInterval (interval opts),
                AutoScalingServices],
      ticks = 0\<rparr>"

definition runAutoScale ::
  "error + unit \<Rightarrow> (string list \<Rightarrow> error + Project) \<Rightarrow> scaleOptions \<Rightarrow> string list
     \<Rightarrow> tickEnv list \<Rightarrow> error + world" where
  "runAutoScale newBackend toProject opts services envs =
     (case newBackend of
        Inl err \<Rightarrow> Inl err
      | Inr _ \<Rightarrow>
          (case toProject services of
             Inl err \<Rightarrow> Inl err
           | Inr project \<Rightarrow>
               (let targetServices =
                      (if length services > 0
                       then FilteredServices (filterServices (Services project) services)
                       else ProjectServices)
                in Inr (autoScaleLoop opts targetServices envs (startWorld opts project)))))"

text \<open>The calls to \<open>backend.Scale\<close> recorded for one service.\<close>

definition callsFor :: "string \<Rightarrow> world \<Rightarrow> (string \<times> int) list" where
  "callsFor serviceName w = filter (\<lambda>c. fst c = serviceName) (backendCalls w)"

text \<open>
  Vocabulary for the replica limits: a count within the limits; a service whose scale in
  the project is within the limits; and a service whose entry in the project is either
  the entry the loop reads for it or already within the limits. The last holds for
  every target service when the loop starts.
\<close>

definition withinLimits :: "scaleOptions \<Rightarrow> int \<Rightarrow> bool" where
  "withinLimits opts n \<longleftrightarrow> minReplicas opts \<le> n \<and> n \<le> maxReplicas opts"

definition settled :: "scaleOptions \<Rightarrow> world \<Rightarrow> string \<Rightarrow> bool" where
  "settled opts w n \<longleftrightarrow>
     (case projectServices w n of
        None \<Rightarrow> False
      | Some p \<Rightarrow> withinLimits opts (currentScaleOf p))"

definition coherent :: "scaleOptions \<Rightarrow> servicesArg \<Rightarrow> world \<Rightarrow> string \<Rightarrow> bool" where
  "coherent opts services w n \<longleftrightarrow>
     (case projectServices w n of
        None \<Rightarrow> False
      | Some p \<Rightarrow> servicesAt services w n = Some p \<or> withinLimits opts (currentScaleOf p))"

subsection \<open>Example inputs\<close>

text \<open>
  A project with three services, \<open>web\<close> at scale 2, \<open>db\<close> without a scale and
  \<open>cache\<close> at scale 15, above the default upper limit; and three surroundings of a
  pass: moderate usage, high usage with a backend that refuses, and a usage probe that
  fails for \<open>web\<close>.
\<close>

definition exampleServices :: Services where
  "exampleServices =
     [''web'' \<mapsto> \<lparr>Scale = Some 2\<rparr>, ''db'' \<mapsto> \<lparr>Scale = None\<rparr>,
      ''cache'' \<mapsto> \<lparr>Scale = Some 15\<rparr>]"

definition exampleProject :: Project where
  "exampleProject = \<lparr>Name = ''demo'', Services = exampleServices\<rparr>"

definition exampleToProject :: "string list \<Rightarrow> error + Project" where
  "exampleToProject services = Inr exampleProject"

definition exampleWorld :: world where
  "exampleWorld = \<lparr>projectServices = exampleServices, backendCalls = [], stdout = [], ticks = 0\<rparr>"

definition calmEnv :: tickEnv where
  "calmEnv = \<lparr>resourceUsage = (\<lambda>n. Inr (60, 60)), backendScale = (\<lambda>p n. None),
              rangeOrder = [''web'', ''db'', ''cache'']\<rparr>"

definition busyRefusedEnv :: tickEnv where
  "busyRefusedEnv = \<lparr>resourceUsage = (\<lambda>n. Inr (80, 50)),
                     backendScale = (\<lambda>p n. Some (Error ''scale refused'')),
                     rangeOrder = [''web'', ''db'', ''cache'']\<rparr>"

definition blindEnv :: tickEnv where
  "blindEnv = \<lparr>resourceUsage = (\<lambda>n. if n = ''web'' then Inl (Error ''no stats'') else Inr (80, 50)),
               backendScale = (\<lambda>p n. None),
               rangeOrder = [''web'', ''db'', ''cache'']\<rparr>"

section \<open>Properties\<close>

subsection \<open>Auxiliary facts\<close>


lemma println_fields [simp]:
  "projectServices (println l w) = projectServices w"
  "backendCalls (println l w) = backendCalls w"
  "ticks (println l w) = ticks w"
  "stdout (println l w) = stdout w @ [l]"
  by (simp_all add: println_def)

lemma servicesAt_println [simp]: "servicesAt services (println l w) = servicesAt services w"
  by (cases services) (simp_all add: servicesAt_def)

lemma callsFor_println [simp]: "callsFor n (println l w) = callsFor n w"
  by (simp add: callsFor_def)

text \<open>The body for one key leaves every other key of the project and its calls alone.\<close>

lemma scaleOneService_other_project:
  "m \<noteq> n \<Longrightarrow> projectServices (scaleOneService env opts services m w) n = projectServices w n"
  by (simp add: scaleOneService_def Let_def split: option.splits sum.splits prod.splits)

lemma scaleOneService_other_calls:
  "m \<noteq> n \<Longrightarrow> callsFor n (scaleOneService env opts services m w) = callsFor n w"
  by (simp add: scaleOneService_def Let_def callsFor_def split: option.splits sum.splits prod.splits)

lemma scaleOneService_other_servicesAt:
  "m \<noteq> n \<Longrightarrow>
     servicesAt services (scaleOneService env opts services m w) n = servicesAt services w n"
  by (cases services) (simp_all add: servicesAt_def scaleOneService_other_project)

lemma scaleOneService_ticks [simp]:
  "ticks (scaleOneService env opts services m w) = ticks w"
  by (simp add: scaleOneService_def Let_def split: option.splits sum.splits prod.splits)

lemma fold_other_project:
  "n \<notin> set xs \<Longrightarrow>
     projectServices (fold (scaleOneService env opts services) xs w) n = projectServices w n"
  by (induction xs arbitrary: w) (auto simp: scaleOneService_other_project)

lemma fold_other_calls:
  "n \<notin> set xs \<Longrightarrow> callsFor n (fold (scaleOneService env opts services) xs w) = callsFor n w"
  by (induction xs arbitrary: w) (auto simp: scaleOneService_other_calls)

lemma fold_other_servicesAt:
  "n \<notin> set xs \<Longrightarrow>
     servicesAt services (fold (scaleOneService env opts services) xs w) n
       = servicesAt services w n"
  by (induction xs arbitrary: w) (auto simp: scaleOneService_other_servicesAt)

lemma fold_ticks [simp]: "ticks (fold (scaleOneService env opts services) xs w) = ticks w"
  by (induction xs arbitrary: w) auto

lemma scaleOneService_unchanged:
  assumes "servicesAt services w n = Some service"
    and "resourceUsage env n = Inr (cpu, mem)"
    and "applyScaleLimits opts (strategyScale opts (currentScaleOf service) cpu mem)
           = currentScaleOf service"
  shows "scaleOneService env opts services n w
           = println (ServiceStatus n (currentScaleOf service) cpu mem) w"
  using assms by (simp add: scaleOneService_def Let_def)

lemma scaleOneService_usage_error:
  assumes "servicesAt services w n = Some service"
    and "resourceUsage env n = Inl err"
  shows "scaleOneService env opts services n w = println (WarnUsage n err) w"
  using assms by (simp add: scaleOneService_def Let_def)

subsection \<open>The strategies\<close>







subsection \<open>A pass over the services\<close>

text \<open>
  C7. In a pass that yields each key once, a service whose usage was read and whose
  limited decision equals its current scale gets no call to \<open>backend.Scale\<close>, and its
  entry in the project is what it was before the pass.
\<close>

theorem unchanged_scale_no_actuation:
  assumes "distinct (rangeOrder env)"
    and "serviceName \<in> set (rangeOrder env)"
    and "servicesAt services w serviceName = Some service"
    and "resourceUsage env serviceName = Inr (cpu, mem)"
    and "applyScaleLimits opts (strategyScale opts (currentScaleOf service) cpu mem)
           = currentScaleOf service"
  shows "callsFor serviceName (snd (checkAndScale env opts services w)) = callsFor serviceName w
       \<and> projectServices (snd (checkAndScale env opts services w)) serviceName
           = projectServices w serviceName"
proof -
  from assms(2) obtain xs ys where split: "rangeOrder env = xs @ serviceName # ys"
    by (auto simp: in_set_conv_decomp)
  with assms(1) have notin: "serviceName \<notin> set xs" "serviceName \<notin> set ys"
    by auto
  let ?body = "scaleOneService env opts services"
  let ?w1 = "fold ?body xs w"
  have at: "servicesAt services ?w1 serviceName = Some service"
    using notin(1) assms(3) by (simp add: fold_other_servicesAt)
  have step: "?body serviceName ?w1
                = println (ServiceStatus serviceName (currentScaleOf service) cpu mem) ?w1"
    using at assms(4,5) by (rule scaleOneService_unchanged)
  have res: "snd (checkAndScale env opts services w)
               = fold ?body ys
                   (println (ServiceStatus serviceName (currentScaleOf service) cpu mem) ?w1)"
    by (simp add: checkAndScale_def split step)
  show ?thesis
    using notin by (simp add: res fold_other_calls fold_other_project)
qed

theorem unchanged_scale_no_actuation_witness:
  "distinct (rangeOrder calmEnv)
   \<and> ''web'' \<in> set (rangeOrder calmEnv)
   \<and> servicesAt ProjectServices exampleWorld ''web'' = Some \<lparr>Scale = Some 2\<rparr>
   \<and> resourceUsage calmEnv ''web'' = Inr (60, 60)
   \<and> applyScaleLimits defaultOptions
        (strategyScale defaultOptions (currentScaleOf \<lparr>Scale = Some 2\<rparr>) 60 60)
       = currentScaleOf \<lparr>Scale = Some 2\<rparr>
   \<and> callsFor ''web'' (snd (checkAndScale calmEnv defaultOptions ProjectServices exampleWorld)) = []
   \<and> projectServices (snd (checkAndScale calmEnv defaultOptions ProjectServices exampleWorld)) ''web''
       = Some \<lparr>Scale = Some 2\<rparr>"
proof -
  have h1: "distinct (rangeOrder calmEnv)" and h2: "''web'' \<in> set (rangeOrder calmEnv)"
    by (simp_all add: calmEnv_def)
  have h3: "servicesAt ProjectServices exampleWorld ''web'' = Some \<lparr>Scale = Some 2\<rparr>"
    by (simp add: servicesAt_def exampleWorld_def exampleServices_def)
  have h4: "resourceUsage calmEnv ''web'' = Inr (60, 60)"
    by (simp add: calmEnv_def)
  have h5: "applyScaleLimits defaultOptions
        (strategyScale defaultOptions (currentScaleOf \<lparr>Scale = Some 2\<rparr>) 60 60)
       = currentScaleOf \<lparr>Scale = Some 2\<rparr>"
    by (simp add: applyScaleLimits_def strategyScale_def calculateBalancedScale_def
          defaultOptions_def currentScaleOf_def)
  have w0: "callsFor ''web'' exampleWorld = []"
           "projectServices exampleWorld ''web'' = Some \<lparr>Scale = Some 2\<rparr>"
    by (simp_all add: callsFor_def exampleWorld_def exampleServices_def)
  from unchanged_scale_no_actuation [OF h1 h2 h3 h4 h5] h1 h2 h3 h4 h5 w0
  show ?thesis by simp
qed

text \<open>
  C9. The switch has no error branch: with any strategy name other than
  \<open>performance\<close> and \<open>efficiency\<close> the decision is that of the balanced
  strategy, and a whole pass is the pass made with the name \<open>balanced\<close>.
\<close>

theorem unknown_strategy_is_balanced:
  assumes "strategy opts \<noteq> ''performance''" and "strategy opts \<noteq> ''efficiency''"
  shows "strategyScale opts currentScale cpu mem = calculateBalancedScale currentScale cpu mem opts
       \<and> checkAndScale env opts services w
           = checkAndScale env (opts\<lparr>strategy := ''balanced''\<rparr>) services w"
proof -
  have a: "\<And>c u v. strategyScale (opts\<lparr>strategy := ''balanced''\<rparr>) c u v = strategyScale opts c u v"
    using assms by (simp add: strategyScale_def calculateBalancedScale_def)
  have b: "\<And>d. applyScaleLimits (opts\<lparr>strategy := ''balanced''\<rparr>) d = applyScaleLimits opts d"
    by (simp add: applyScaleLimits_def Let_def)
  have c: "scaleOneService env opts services
             = scaleOneService env (opts\<lparr>strategy := ''balanced''\<rparr>) services"
    by (rule ext, rule ext) (simp add: scaleOneService_def a b Let_def split: option.splits sum.splits)
  show ?thesis
    using assms by (simp add: checkAndScale_def c) (simp add: strategyScale_def)
qed

theorem unknown_strategy_is_balanced_witness:
  "strategy (defaultOptions\<lparr>strategy := ''turbo''\<rparr>) \<noteq> ''performance''
   \<and> strategy (defaultOptions\<lparr>strategy := ''turbo''\<rparr>) \<noteq> ''efficiency''
   \<and> strategyScale (defaultOptions\<lparr>strategy := ''turbo''\<rparr>) 2 80 50 = 3
   \<and> checkAndScale calmEnv (defaultOptions\<lparr>strategy := ''turbo''\<rparr>) ProjectServices exampleWorld
       = checkAndScale calmEnv (defaultOptions\<lparr>strategy := ''turbo'', strategy := ''balanced''\<rparr>)
           ProjectServices exampleWorld"
  using unknown_strategy_is_balanced
          [of "defaultOptions\<lparr>strategy := ''turbo''\<rparr>" 2 80 50 calmEnv ProjectServices exampleWorld]
  by (simp add: defaultOptions_def calculateBalancedScale_def)

subsection \<open>More auxiliary facts\<close>

lemma scaleOneService_rangeOrder [simp]:
  "scaleOneService (env\<lparr>rangeOrder := xs\<rparr>) opts services = scaleOneService env opts services"
  by (rule ext, rule ext)
     (simp add: scaleOneService_def Let_def split: option.splits sum.splits)

lemma checkAndScale_append:
  "rangeOrder env = xs @ n # ys \<Longrightarrow>
   checkAndScale env opts services w =
     (None, snd (checkAndScale (env\<lparr>rangeOrder := ys\<rparr>) opts services
               (scaleOneService env opts services n
                  (snd (checkAndScale (env\<lparr>rangeOrder := xs\<rparr>) opts services w)))))"
  by (simp add: checkAndScale_def)

lemma scaleOneService_stdout_mono:
  "l \<in> set (stdout w) \<Longrightarrow> l \<in> set (stdout (scaleOneService env opts services m w))"
  by (simp add: scaleOneService_def Let_def split: option.splits sum.splits prod.splits)

lemma fold_stdout_mono:
  "l \<in> set (stdout w) \<Longrightarrow> l \<in> set (stdout (fold (scaleOneService env opts services) xs w))"
  by (induction xs arbitrary: w) (auto simp: scaleOneService_stdout_mono)

lemma scaleOneService_refused:
  assumes "servicesAt services w n = Some service"
    and "resourceUsage env n = Inr (cpu, mem)"
    and "newScale = applyScaleLimits opts (strategyScale opts (currentScaleOf service) cpu mem)"
    and "newScale \<noteq> currentScaleOf service"
    and "backendScale env ((projectServices w)(n \<mapsto> SetScale newScale service)) n = Some err"
  shows "projectServices (scaleOneService env opts services n w) n = Some (SetScale newScale service)"
    and "callsFor n (scaleOneService env opts services n w) = callsFor n w @ [(n, newScale)]"
    and "WarnScale n err \<in> set (stdout (scaleOneService env opts services n w))"
  using assms by (simp_all add: scaleOneService_def Let_def callsFor_def)

lemmas example_defs =
  checkAndScale_def scaleOneService_def exampleWorld_def exampleServices_def servicesAt_def
  currentScaleOf_def applyScaleLimits_def strategyScale_def calculateBalancedScale_def
  defaultOptions_def SetScale_def println_def callsFor_def

subsection \<open>Failures inside a pass\<close>

text \<open>
  C8. When reading the usage of a service fails, the pass is the pass over the services
  yielded before it, then the warning, then the pass over the services yielded after it:
  no decision is taken for the service, no call to \<open>backend.Scale\<close> is made for it,
  its entry in the project stays, and \<open>checkAndScale\<close> still returns nil.
\<close>

theorem usage_failure_skips_service:
  assumes "rangeOrder env = before @ serviceName # after"
    and "serviceName \<notin> set before" and "serviceName \<notin> set after"
    and "servicesAt services w serviceName = Some service"
    and "resourceUsage env serviceName = Inl err"
  shows "checkAndScale env opts services w =
           (None, snd (checkAndScale (env\<lparr>rangeOrder := after\<rparr>) opts services
                     (println (WarnUsage serviceName err)
                        (snd (checkAndScale (env\<lparr>rangeOrder := before\<rparr>) opts services w)))))
       \<and> callsFor serviceName (snd (checkAndScale env opts services w)) = callsFor serviceName w
       \<and> projectServices (snd (checkAndScale env opts services w)) serviceName
           = projectServices w serviceName"
proof -
  let ?body = "scaleOneService env opts services"
  let ?w1 = "snd (checkAndScale (env\<lparr>rangeOrder := before\<rparr>) opts services w)"
  have w1: "?w1 = fold ?body before w"
    by (simp add: checkAndScale_def)
  have at: "servicesAt services ?w1 serviceName = Some service"
    using assms(2,4) by (simp add: w1 fold_other_servicesAt)
  have step: "?body serviceName ?w1 = println (WarnUsage serviceName err) ?w1"
    using at assms(5) by (rule scaleOneService_usage_error)
  have whole: "checkAndScale env opts services w =
           (None, snd (checkAndScale (env\<lparr>rangeOrder := after\<rparr>) opts services
                     (println (WarnUsage serviceName err) ?w1)))"
    using checkAndScale_append [OF assms(1)] by (simp add: step)
  have calls: "callsFor serviceName (snd (checkAndScale env opts services w))
                 = callsFor serviceName w"
    using assms(2,3) by (simp add: whole) (simp add: checkAndScale_def fold_other_calls)
  have proj: "projectServices (snd (checkAndScale env opts services w)) serviceName
                 = projectServices w serviceName"
    using assms(2,3) by (simp add: whole) (simp add: checkAndScale_def fold_other_project)
  from whole calls proj show ?thesis by blast
qed

text \<open>
  The probe fails for \<open>web\<close>, which is yielded first; \<open>db\<close> and
  \<open>cache\<close>, yielded after it, are still scaled.
\<close>

theorem usage_failure_skips_service_witness:
  "rangeOrder blindEnv = [] @ ''web'' # [''db'', ''cache'']
   \<and> ''web'' \<notin> set [] \<and> ''web'' \<notin> set [''db'', ''cache'']
   \<and> servicesAt ProjectServices exampleWorld ''web'' = Some \<lparr>Scale = Some 2\<rparr>
   \<and> resourceUsage blindEnv ''web'' = Inl (Error ''no stats'')
   \<and> fst (checkAndScale blindEnv defaultOptions ProjectServices exampleWorld) = None
   \<and> callsFor ''web'' (snd (checkAndScale blindEnv defaultOptions ProjectServices exampleWorld)) = []
   \<and> projectServices (snd (checkAndScale blindEnv defaultOptions ProjectServices exampleWorld)) ''web''
        = Some \<lparr>Scale = Some 2\<rparr>
   \<and> backendCalls (snd (checkAndScale blindEnv defaultOptions ProjectServices exampleWorld))
        = [(''db'', 2), (''cache'', 10)]"
proof -
  have h1: "rangeOrder blindEnv = [] @ ''web'' # [''db'', ''cache'']"
    by (simp add: blindEnv_def)
  have h2: "''web'' \<notin> set []" and h3: "''web'' \<notin> set [''db'', ''cache'']"
    by simp_all
  have h4: "servicesAt ProjectServices exampleWorld ''web'' = Some \<lparr>Scale = Some 2\<rparr>"
    by (simp add: servicesAt_def exampleWorld_def exampleServices_def)
  have h5: "resourceUsage blindEnv ''web'' = Inl (Error ''no stats'')"
    by (simp add: blindEnv_def)
  have w0: "callsFor ''web'' exampleWorld = []"
           "projectServices exampleWorld ''web'' = Some \<lparr>Scale = Some 2\<rparr>"
    by (simp_all add: callsFor_def exampleWorld_def exampleServices_def)
  note t = usage_failure_skips_service [OF h1 h2 h3 h4 h5, of defaultOptions]
  from t have c1: "fst (checkAndScale blindEnv defaultOptions ProjectServices exampleWorld) = None"
    by simp
  have c2: "callsFor ''web''
      (snd (checkAndScale blindEnv defaultOptions ProjectServices exampleWorld)) = []"
    using t [THEN conjunct2, THEN conjunct1] w0(1) by simp
  have c3: "projectServices
      (snd (checkAndScale blindEnv defaultOptions ProjectServices exampleWorld)) ''web''
        = Some \<lparr>Scale = Some 2\<rparr>"
    using t [THEN conjunct2, THEN conjunct2] w0(2) by simp
  have c4: "backendCalls (snd (checkAndScale blindEnv defaultOptions ProjectServices exampleWorld))
        = [(''db'', 2), (''cache'', 10)]"
    by (simp add: example_defs blindEnv_def)
  from h1 h2 h3 h4 h5 c1 c2 c3 c4 show ?thesis by blast
qed

text \<open>
  C10. When the body meets a service whose \<open>Scale\<close> is nil, the current scale it works
  with is 1: the status line shows 1, the decision is computed from 1, and it is compared
  with 1 to decide whether the project is written and \<open>backend.Scale\<close> is called.
\<close>

theorem nil_scale_counts_as_one:
  assumes "servicesAt services w serviceName = Some service"
    and "Scale service = None"
    and "resourceUsage env serviceName = Inr (cpu, mem)"
  shows "currentScaleOf service = 1
       \<and> ServiceStatus serviceName 1 cpu mem
            \<in> set (stdout (scaleOneService env opts services serviceName w))
       \<and> (applyScaleLimits opts (strategyScale opts 1 cpu mem) = 1 \<longrightarrow>
            projectServices (scaleOneService env opts services serviceName w) = projectServices w
            \<and> backendCalls (scaleOneService env opts services serviceName w) = backendCalls w)
       \<and> (applyScaleLimits opts (strategyScale opts 1 cpu mem) \<noteq> 1 \<longrightarrow>
            projectServices (scaleOneService env opts services serviceName w)
              = (projectServices w)
                  (serviceName \<mapsto> SetScale (applyScaleLimits opts (strategyScale opts 1 cpu mem)) service)
            \<and> backendCalls (scaleOneService env opts services serviceName w)
              = backendCalls w
                  @ [(serviceName, applyScaleLimits opts (strategyScale opts 1 cpu mem))])"
  using assms
  by (simp add: scaleOneService_def currentScaleOf_def Let_def split: option.splits)

text \<open>
  \<open>db\<close> has no scale. Under high usage it is scaled to 2, one more than 1; under
  moderate usage nothing is done, since the decision is 1.
\<close>

theorem nil_scale_counts_as_one_witness:
  "servicesAt ProjectServices exampleWorld ''db'' = Some \<lparr>Scale = None\<rparr>
   \<and> Scale \<lparr>Scale = None\<rparr> = None
   \<and> resourceUsage busyRefusedEnv ''db'' = Inr (80, 50)
   \<and> resourceUsage calmEnv ''db'' = Inr (60, 60)
   \<and> applyScaleLimits defaultOptions (strategyScale defaultOptions 1 80 50) = 2
   \<and> applyScaleLimits defaultOptions (strategyScale defaultOptions 1 60 60) = 1
   \<and> backendCalls (scaleOneService busyRefusedEnv defaultOptions ProjectServices ''db'' exampleWorld)
       = [(''db'', 2)]
   \<and> backendCalls (scaleOneService calmEnv defaultOptions ProjectServices ''db'' exampleWorld)
       = []"
proof -
  have h1: "servicesAt ProjectServices exampleWorld ''db'' = Some \<lparr>Scale = None\<rparr>"
    by (simp add: servicesAt_def exampleWorld_def exampleServices_def)
  have h2: "Scale \<lparr>Scale = None\<rparr> = None"
    by simp
  have h3: "resourceUsage busyRefusedEnv ''db'' = Inr (80, 50)"
    by (simp add: busyRefusedEnv_def)
  have h4: "resourceUsage calmEnv ''db'' = Inr (60, 60)"
    by (simp add: calmEnv_def)
  have d1: "applyScaleLimits defaultOptions (strategyScale defaultOptions 1 80 50) = 2"
    by (simp add: example_defs)
  have d2: "applyScaleLimits defaultOptions (strategyScale defaultOptions 1 60 60) = 1"
    by (simp add: example_defs)
  have w0: "backendCalls exampleWorld = []"
    by (simp add: exampleWorld_def)
  have c1: "backendCalls
      (scaleOneService busyRefusedEnv defaultOptions ProjectServices ''db'' exampleWorld)
       = [(''db'', 2)]"
    using nil_scale_counts_as_one [OF h1 h2 h3, of defaultOptions] d1 w0 by simp
  have c2: "backendCalls
      (scaleOneService calmEnv defaultOptions ProjectServices ''db'' exampleWorld) = []"
    using nil_scale_counts_as_one [OF h1 h2 h4, of defaultOptions] d2 w0 by simp
  from h1 h2 h3 h4 d1 d2 c1 c2 show ?thesis by blast
qed

text \<open>
  C2 (as amended). When \<open>backend.Scale\<close> fails for a service, \<open>checkAndScale\<close> prints a
  warning and still returns nil, and the target scale, written into \<open>project.Services\<close>
  before the call, stays there: nothing is rolled back. When the loop ranges over
  \<open>project.Services\<close> itself, the next pass therefore reads the failed target as the
  current scale; when it ranges over the filtered map, it reads the entry of that map,
  which no pass ever writes.
\<close>

theorem failed_scale_keeps_target:
  assumes "rangeOrder env = before @ serviceName # after"
    and "serviceName \<notin> set before" and "serviceName \<notin> set after"
    and "servicesAt services w serviceName = Some service"
    and "resourceUsage env serviceName = Inr (cpu, mem)"
    and "newScale = applyScaleLimits opts (strategyScale opts (currentScaleOf service) cpu mem)"
    and "newScale \<noteq> currentScaleOf service"
    and "backendScale env
           ((projectServices (snd (checkAndScale (env\<lparr>rangeOrder := before\<rparr>) opts services w)))
              (serviceName \<mapsto> SetScale newScale service))
           serviceName = Some err"
  shows "fst (checkAndScale env opts services w) = None
       \<and> WarnScale serviceName err \<in> set (stdout (snd (checkAndScale env opts services w)))
       \<and> callsFor serviceName (snd (checkAndScale env opts services w))
           = callsFor serviceName w @ [(serviceName, newScale)]
       \<and> projectServices (snd (checkAndScale env opts services w)) serviceName
           = Some (SetScale newScale service)
       \<and> currentScaleOf (SetScale newScale service) = newScale
       \<and> (services = ProjectServices \<longrightarrow>
            servicesAt services (snd (checkAndScale env opts services w)) serviceName
              = Some (SetScale newScale service))
       \<and> (services = FilteredServices m \<longrightarrow>
            servicesAt services (snd (checkAndScale env opts services w)) serviceName
              = Some service)"
proof -
  let ?body = "scaleOneService env opts services"
  let ?w1 = "snd (checkAndScale (env\<lparr>rangeOrder := before\<rparr>) opts services w)"
  let ?w2 = "?body serviceName ?w1"
  have w1: "?w1 = fold ?body before w"
    by (simp add: checkAndScale_def)
  have at: "servicesAt services ?w1 serviceName = Some service"
    using assms(2,4) by (simp add: w1 fold_other_servicesAt)
  note step = scaleOneService_refused [OF at assms(5) assms(6) assms(7) assms(8)]
  have whole: "snd (checkAndScale env opts services w) = fold ?body after ?w2"
    using checkAndScale_append [OF assms(1), of opts services w] by (simp add: checkAndScale_def)
  have c1: "fst (checkAndScale env opts services w) = None"
    by (simp add: checkAndScale_def)
  have c2: "WarnScale serviceName err \<in> set (stdout (snd (checkAndScale env opts services w)))"
    using step(3) by (simp add: whole fold_stdout_mono)
  have "callsFor serviceName ?w1 = callsFor serviceName w"
    using assms(2) by (simp add: w1 fold_other_calls)
  then have c3: "callsFor serviceName (snd (checkAndScale env opts services w))
           = callsFor serviceName w @ [(serviceName, newScale)]"
    using assms(3) step(2) by (simp add: whole fold_other_calls)
  have c4: "projectServices (snd (checkAndScale env opts services w)) serviceName
           = Some (SetScale newScale service)"
    using assms(3) step(1) by (simp add: whole fold_other_project)
  have c5: "currentScaleOf (SetScale newScale service) = newScale"
    by (simp add: currentScaleOf_def SetScale_def)
  have c6: "services = ProjectServices \<longrightarrow>
            servicesAt services (snd (checkAndScale env opts services w)) serviceName
              = Some (SetScale newScale service)"
    using c4 by (auto simp: servicesAt_def)
  have c7: "services = FilteredServices m \<longrightarrow>
            servicesAt services (snd (checkAndScale env opts services w)) serviceName
              = Some service"
    using assms(4) by (auto simp: servicesAt_def)
  from c1 c2 c3 c4 c5 c6 c7 show ?thesis by blast
qed

text \<open>
  \<open>web\<close> at scale 2 under high usage and a refusing backend. With the loop ranging
  over the project's own map, the project holds 3 after the pass and so does the map the
  loop reads. With the loop ranging over a filtered copy, the project holds 3 as well,
  and the copy still says 2.
\<close>

theorem failed_scale_keeps_target_witness:
  "rangeOrder busyRefusedEnv = [] @ ''web'' # [''db'', ''cache'']
   \<and> ''web'' \<notin> set [] \<and> ''web'' \<notin> set [''db'', ''cache'']
   \<and> servicesAt ProjectServices exampleWorld ''web'' = Some \<lparr>Scale = Some 2\<rparr>
   \<and> servicesAt (FilteredServices exampleServices) exampleWorld ''web'' = Some \<lparr>Scale = Some 2\<rparr>
   \<and> resourceUsage busyRefusedEnv ''web'' = Inr (80, 50)
   \<and> 3 = applyScaleLimits defaultOptions
            (strategyScale defaultOptions (currentScaleOf \<lparr>Scale = Some 2\<rparr>) 80 50)
   \<and> 3 \<noteq> currentScaleOf \<lparr>Scale = Some 2\<rparr>
   \<and> backendScale busyRefusedEnv
        ((projectServices
            (snd (checkAndScale (busyRefusedEnv\<lparr>rangeOrder := []\<rparr>) defaultOptions
                    ProjectServices exampleWorld)))
           (''web'' \<mapsto> SetScale 3 \<lparr>Scale = Some 2\<rparr>))
        ''web'' = Some (Error ''scale refused'')
   \<and> projectServices
        (snd (checkAndScale busyRefusedEnv defaultOptions ProjectServices exampleWorld)) ''web''
       = Some \<lparr>Scale = Some 3\<rparr>
   \<and> servicesAt ProjectServices
        (snd (checkAndScale busyRefusedEnv defaultOptions ProjectServices exampleWorld)) ''web''
       = Some \<lparr>Scale = Some 3\<rparr>
   \<and> projectServices
        (snd (checkAndScale busyRefusedEnv defaultOptions (FilteredServices exampleServices)
                exampleWorld)) ''web''
       = Some \<lparr>Scale = Some 3\<rparr>
   \<and> servicesAt (FilteredServices exampleServices)
        (snd (checkAndScale busyRefusedEnv defaultOptions (FilteredServices exampleServices)
                exampleWorld)) ''web''
       = Some \<lparr>Scale = Some 2\<rparr>"
proof -
  have h1: "rangeOrder busyRefusedEnv = [] @ ''web'' # [''db'', ''cache'']"
    by (simp add: busyRefusedEnv_def)
  have h2: "''web'' \<notin> set []" and h3: "''web'' \<notin> set [''db'', ''cache'']"
    by simp_all
  have h4: "servicesAt ProjectServices exampleWorld ''web'' = Some \<lparr>Scale = Some 2\<rparr>"
    by (simp add: servicesAt_def exampleWorld_def exampleServices_def)
  have h4': "servicesAt (FilteredServices exampleServices) exampleWorld ''web''
               = Some \<lparr>Scale = Some 2\<rparr>"
    by (simp add: servicesAt_def exampleServices_def)
  have h5: "resourceUsage busyRefusedEnv ''web'' = Inr (80, 50)"
    by (simp add: busyRefusedEnv_def)
  have h6: "3 = applyScaleLimits defaultOptions
            (strategyScale defaultOptions (currentScaleOf \<lparr>Scale = Some 2\<rparr>) 80 50)"
    by (simp add: example_defs)
  have h7: "3 \<noteq> currentScaleOf \<lparr>Scale = Some 2\<rparr>"
    by (simp add: currentScaleOf_def)
  have h8: "backendScale busyRefusedEnv
        ((projectServices
            (snd (checkAndScale (busyRefusedEnv\<lparr>rangeOrder := []\<rparr>) defaultOptions
                    services exampleWorld)))
           (''web'' \<mapsto> SetScale 3 \<lparr>Scale = Some 2\<rparr>))
        ''web'' = Some (Error ''scale refused'')" for services
    by (simp add: busyRefusedEnv_def)
  note t = failed_scale_keeps_target [OF h1 h2 h3 h4 h5 h6 h7 h8, of Map.empty]
  note t' = failed_scale_keeps_target [OF h1 h2 h3 h4' h5 h6 h7 h8, of exampleServices]
  have s: "SetScale 3 \<lparr>Scale = Some 2\<rparr> = \<lparr>Scale = Some 3\<rparr>"
    by (simp add: SetScale_def)
  have c1: "projectServices
        (snd (checkAndScale busyRefusedEnv defaultOptions ProjectServices exampleWorld)) ''web''
       = Some \<lparr>Scale = Some 3\<rparr>"
    using t s by simp
  have c2: "servicesAt ProjectServices
        (snd (checkAndScale busyRefusedEnv defaultOptions ProjectServices exampleWorld)) ''web''
       = Some \<lparr>Scale = Some 3\<rparr>"
    using t s by simp
  have c3: "projectServices
        (snd (checkAndScale busyRefusedEnv defaultOptions (FilteredServices exampleServices)
                exampleWorld)) ''web''
       = Some \<lparr>Scale = Some 3\<rparr>"
    using t' s by simp
  have c4: "servicesAt (FilteredServices exampleServices)
        (snd (checkAndScale busyRefusedEnv defaultOptions (FilteredServices exampleServices)
                exampleWorld)) ''web''
       = Some \<lparr>Scale = Some 2\<rparr>"
    using t' by simp
  from h1 h2 h3 h4 h4' h5 h6 h7 h8 [of ProjectServices] c1 c2 c3 c4 show ?thesis by blast
qed

text \<open>
  The claim as stated fails: the backend refuses the call for \<open>web\<close>, yet the project
  entry goes from 2 to 3, and a second pass starts from 3 and asks for 4.
\<close>

theorem failed_scale_recorded_counterexample:
  "backendScale busyRefusedEnv
      ((projectServices exampleWorld)(''web'' \<mapsto> \<lparr>Scale = Some 3\<rparr>)) ''web''
     = Some (Error ''scale refused'')
   \<and> projectServices exampleWorld ''web'' = Some \<lparr>Scale = Some 2\<rparr>
   \<and> projectServices
        (snd (checkAndScale (busyRefusedEnv\<lparr>rangeOrder := [''web'']\<rparr>) defaultOptions
                ProjectServices exampleWorld)) ''web''
       = Some \<lparr>Scale = Some 3\<rparr>
   \<and> stdout
        (snd (checkAndScale (busyRefusedEnv\<lparr>rangeOrder := [''web'']\<rparr>) defaultOptions
                ProjectServices
                (snd (checkAndScale (busyRefusedEnv\<lparr>rangeOrder := [''web'']\<rparr>) defaultOptions
                        ProjectServices exampleWorld))))
       = [ServiceStatus ''web'' 2 80 50, Scaling ''web'' 2 3,
          WarnScale ''web'' (Error ''scale refused''),
          ServiceStatus ''web'' 3 80 50, Scaling ''web'' 3 4,
          WarnScale ''web'' (Error ''scale refused'')]"
  by (simp add: example_defs busyRefusedEnv_def)

subsection \<open>Starting the loop\<close>

lemma autoScaleLoop_Cons:
  "autoScaleLoop opts services (env # envs) w
     = autoScaleLoop opts services envs
         (snd (checkAndScale env opts services (w\<lparr>ticks := ticks w + 1\<rparr>)))"
  by (simp add: checkAndScale_def)

lemma ticks_checkAndScale [simp]:
  "ticks (snd (checkAndScale env opts services w)) = ticks w"
  by (simp add: checkAndScale_def)

lemma ticks_autoScaleLoop:
  "ticks (autoScaleLoop opts services envs w) = ticks w + length envs"
proof (induction envs arbitrary: w)
  case Nil
  show ?case by simp
next
  case (Cons env envs)
  show ?case
    by (simp only: autoScaleLoop_Cons Cons.IH) simp
qed

lemmas run_defs = runAutoScale_def startWorld_def exampleToProject_def exampleProject_def

text \<open>
  C3 (as amended). No option is checked at startup. Once the backend has been created
  and the project loaded, \<open>runAutoScale\<close> enters the loop whatever the strategy name
  and the replica limits are, runs one pass for every iteration that finds the context
  not done, and returns nil when the context is done.
\<close>

theorem options_are_not_validated:
  assumes "newBackend = Inr u" and "toProject services = Inr project"
  shows "\<exists>w. runAutoScale newBackend toProject opts services envs = Inr w
             \<and> ticks w = length envs"
  using assms by (simp add: runAutoScale_def Let_def ticks_autoScaleLoop startWorld_def)

theorem options_are_not_validated_witness:
  "(Inr () :: error + unit) = Inr ()
   \<and> exampleToProject [] = Inr exampleProject
   \<and> map_sum id ticks
        (runAutoScale (Inr ()) exampleToProject
           (defaultOptions\<lparr>strategy := ''turbo'', minReplicas := 5, maxReplicas := 3\<rparr>)
           [] [calmEnv, busyRefusedEnv])
       = Inr 2"
proof -
  have h1: "(Inr () :: error + unit) = Inr ()"
    by simp
  have h2: "exampleToProject [] = Inr exampleProject"
    by (simp add: exampleToProject_def)
  from options_are_not_validated
         [where newBackend = "Inr ()" and u = "()" and toProject = exampleToProject
            and services = "[]" and project = exampleProject
            and opts = "defaultOptions\<lparr>strategy := ''turbo'', minReplicas := 5, maxReplicas := 3\<rparr>"
            and envs = "[calmEnv, busyRefusedEnv]", OF h1 h2]
  obtain w where "runAutoScale (Inr ()) exampleToProject
           (defaultOptions\<lparr>strategy := ''turbo'', minReplicas := 5, maxReplicas := 3\<rparr>)
           [] [calmEnv, busyRefusedEnv] = Inr w" and "ticks w = 2"
    by auto
  with h1 h2 show ?thesis by simp
qed

text \<open>
  The claim as stated fails: with the strategy name \<open>turbo\<close> the run prints the status
  lines of a pass and ends without error, and with limits 5 and 3 a pass calls the
  backend for all three services.
\<close>

theorem startup_validation_counterexample:
  "map_sum id stdout
     (runAutoScale (Inr ()) exampleToProject (defaultOptions\<lparr>strategy := ''turbo''\<rparr>) []
        [calmEnv])
    = Inr [Starting ''turbo'', Thresholds 70 70, ReplicaRange 1 10, CheckInterval 30,
           AutoScalingServices,
           ServiceStatus ''web'' 2 60 60, ServiceStatus ''db'' 1 60 60,
           ServiceStatus ''cache'' 15 60 60, Scaling ''cache'' 15 10, Scaled ''cache'' 10,
           Stopped]
   \<and> map_sum id backendCalls
     (runAutoScale (Inr ()) exampleToProject
        (defaultOptions\<lparr>minReplicas := 5, maxReplicas := 3\<rparr>) [] [calmEnv])
    = Inr [(''web'', 3), (''db'', 3), (''cache'', 3)]"
  by (simp add: run_defs example_defs calmEnv_def)

subsection \<open>The replica limits\<close>

lemma applyScaleLimits_within:
  "minReplicas opts \<le> maxReplicas opts \<Longrightarrow> withinLimits opts (applyScaleLimits opts d)"
  by (simp add: withinLimits_def applyScaleLimits_def Let_def)

lemma applyScaleLimits_max_min:
  "minReplicas opts \<le> maxReplicas opts \<Longrightarrow>
     applyScaleLimits opts d = max (minReplicas opts) (min (maxReplicas opts) d)"
  by (simp add: applyScaleLimits_def Let_def max_def min_def)

lemma settled_println [simp]: "settled opts (println l w) n = settled opts w n"
  by (simp add: settled_def)

lemma coherent_println [simp]: "coherent opts services (println l w) n = coherent opts services w n"
  by (simp add: coherent_def split: option.splits)

lemma servicesAt_ticks [simp]: "servicesAt services (w\<lparr>ticks := k\<rparr>) = servicesAt services w"
  by (cases services) (simp_all add: servicesAt_def)

lemma settled_ticks [simp]: "settled opts (w\<lparr>ticks := k\<rparr>) n = settled opts w n"
  by (simp add: settled_def)

lemma coherent_ticks [simp]:
  "coherent opts services (w\<lparr>ticks := k\<rparr>) n = coherent opts services w n"
  by (simp add: coherent_def split: option.splits)

lemma currentScaleOf_SetScale [simp]: "currentScaleOf (SetScale k service) = k"
  by (simp add: currentScaleOf_def SetScale_def)

lemma scaleOneService_settles:
  assumes "minReplicas opts \<le> maxReplicas opts"
    and "resourceUsage env n = Inr (cpu, mem)"
    and "coherent opts services w n"
  shows "settled opts (scaleOneService env opts services n w) n"
proof (cases "servicesAt services w n")
  case None
  with assms(3) show ?thesis
    by (auto simp: scaleOneService_def coherent_def settled_def split: option.splits)
next
  case (Some service)
  let ?new = "applyScaleLimits opts (strategyScale opts (currentScaleOf service) cpu mem)"
  have lim: "withinLimits opts ?new"
    using assms(1) by (rule applyScaleLimits_within)
  show ?thesis
  proof (cases "?new = currentScaleOf service")
    case True
    then have "scaleOneService env opts services n w
                 = println (ServiceStatus n (currentScaleOf service) cpu mem) w"
      using Some assms(2) by (simp add: scaleOneService_unchanged)
    moreover have "settled opts w n"
      using assms(3) Some lim True
      by (auto simp: coherent_def settled_def split: option.splits)
    ultimately show ?thesis by simp
  next
    case False
    then have "projectServices (scaleOneService env opts services n w) n
                 = Some (SetScale ?new service)"
      using Some assms(2)
      by (simp add: scaleOneService_def Let_def split: option.splits)
    then show ?thesis
      using lim by (simp add: settled_def)
  qed
qed

lemma scaleOneService_keeps_settled:
  assumes "minReplicas opts \<le> maxReplicas opts"
    and "settled opts w n"
  shows "settled opts (scaleOneService env opts services m w) n"
proof (cases "m = n")
  case False
  then have "projectServices (scaleOneService env opts services m w) n = projectServices w n"
    by (rule scaleOneService_other_project)
  with assms(2) show ?thesis by (simp add: settled_def)
next
  case True
  have "\<And>d. withinLimits opts (applyScaleLimits opts d)"
    using assms(1) by (rule applyScaleLimits_within)
  with assms(2) True show ?thesis
    by (auto simp: scaleOneService_def Let_def settled_def
             split: option.splits sum.splits prod.splits)
qed

lemma scaleOneService_keeps_coherent:
  assumes "m \<noteq> n" and "coherent opts services w n"
  shows "coherent opts services (scaleOneService env opts services m w) n"
  using assms
  by (simp add: coherent_def scaleOneService_other_project scaleOneService_other_servicesAt
        split: option.splits)

lemma fold_keeps_settled:
  "minReplicas opts \<le> maxReplicas opts \<Longrightarrow> settled opts w n \<Longrightarrow>
     settled opts (fold (scaleOneService env opts services) xs w) n"
  by (induction xs arbitrary: w) (auto simp: scaleOneService_keeps_settled)

lemma fold_settles:
  assumes "minReplicas opts \<le> maxReplicas opts"
    and "resourceUsage env n = Inr (cpu, mem)"
  shows "n \<in> set xs \<Longrightarrow> coherent opts services w n \<Longrightarrow>
           settled opts (fold (scaleOneService env opts services) xs w) n"
proof (induction xs arbitrary: w)
  case Nil
  then show ?case by simp
next
  case (Cons m xs)
  show ?case
  proof (cases "m = n")
    case True
    have "settled opts (scaleOneService env opts services n w) n"
      using assms Cons.prems(2) by (rule scaleOneService_settles)
    then show ?thesis
      using True assms(1) by (simp add: fold_keeps_settled)
  next
    case False
    with Cons.prems have "n \<in> set xs"
      and "coherent opts services (scaleOneService env opts services m w) n"
      by (auto simp: scaleOneService_keeps_coherent)
    then show ?thesis
      using Cons.IH by simp
  qed
qed

lemma autoScaleLoop_keeps_settled:
  "minReplicas opts \<le> maxReplicas opts \<Longrightarrow> settled opts w n \<Longrightarrow>
     settled opts (autoScaleLoop opts services envs w) n"
proof (induction envs arbitrary: w)
  case Nil
  then show ?case by simp
next
  case (Cons env envs)
  then show ?case
    by (simp only: autoScaleLoop_Cons) (simp add: checkAndScale_def fold_keeps_settled)
qed

lemma autoScaleLoop_settles:
  assumes "minReplicas opts \<le> maxReplicas opts"
    and "n \<in> set (rangeOrder env)"
    and "resourceUsage env n = Inr (cpu, mem)"
    and "coherent opts services w n"
  shows "settled opts (autoScaleLoop opts services (env # envs) w) n"
proof -
  have "settled opts (snd (checkAndScale env opts services (w\<lparr>ticks := ticks w + 1\<rparr>))) n"
    using fold_settles [OF assms(1,3,2), of services "w\<lparr>ticks := ticks w + 1\<rparr>"] assms(4)
    by (simp add: checkAndScale_def)
  then show ?thesis
    using assms(1) by (simp only: autoScaleLoop_Cons autoScaleLoop_keeps_settled)
qed

lemma startWorld_coherent:
  assumes "Services project n = Some service"
    and "services \<noteq> [] \<longrightarrow> n \<in> set services"
  shows "coherent opts
           (if length services > 0
            then FilteredServices (filterServices (Services project) services)
            else ProjectServices)
           (startWorld opts project) n"
  using assms by (auto simp: coherent_def startWorld_def servicesAt_def filterServices_def)

text \<open>
  Whatever the limits are, the two tests amount to \<open>min maxReplicas (max minReplicas
  desired)\<close>; with \<open>minReplicas > maxReplicas\<close> that is \<open>maxReplicas\<close>.
\<close>

lemma applyScaleLimits_general:
  "applyScaleLimits opts desired = min (maxReplicas opts) (max (minReplicas opts) desired)"
  by (simp add: applyScaleLimits_def Let_def max_def min_def)

lemma applyScaleLimits_inverted:
  "minReplicas opts > maxReplicas opts \<Longrightarrow> applyScaleLimits opts desired = maxReplicas opts"
  by (simp add: applyScaleLimits_def Let_def)

text \<open>
  The placeholder probe of the source never reports an error, and its usages lie
  between 40 and 60 for draws in the unit interval.
\<close>

lemma getServiceResourceUsage_succeeds:
  "\<exists>cpu mem. getServiceResourceUsage r1 r2 = Inr (cpu, mem)"
  by (simp add: getServiceResourceUsage_def)

lemma getServiceResourceUsage_range:
  assumes "0 \<le> r1" "r1 < 1" "0 \<le> r2" "r2 < 1"
    and "getServiceResourceUsage r1 r2 = Inr (cpu, mem)"
  shows "40 \<le> cpu \<and> cpu < 60 \<and> 40 \<le> mem \<and> mem < 60"
  using assms by (auto simp: getServiceResourceUsage_def)

text \<open>
  C4. For replica limits with \<open>minReplicas \<le> maxReplicas\<close>: the limiting step is
  \<open>max minReplicas (min maxReplicas desired)\<close>; the limited decision lies between the
  limits for every current scale and every usage; the body compares the limited
  decision, never the raw one, with the current scale, whichever branch the strategy
  took, and the backend is called with it exactly when the two differ; and in a run of at
  least one pass in which every pass yields the service and reads its usage (as the
  probe of the source always does), the scale that the project holds for a target
  service at the end lies between the limits.
\<close>

theorem scale_limits_hold:
  assumes "minReplicas opts \<le> maxReplicas opts"
  shows "applyScaleLimits opts desired = max (minReplicas opts) (min (maxReplicas opts) desired)
       \<and> minReplicas opts \<le> applyScaleLimits opts (strategyScale opts currentScale cpu mem)
       \<and> applyScaleLimits opts (strategyScale opts currentScale cpu mem) \<le> maxReplicas opts
       \<and> (servicesAt services v serviceName = Some service
            \<and> resourceUsage env serviceName = Inr (cpu, mem)
          \<longrightarrow> backendCalls (scaleOneService env opts services serviceName v)
                = backendCalls v
                  @ (if applyScaleLimits opts (strategyScale opts (currentScaleOf service) cpu mem)
                          \<noteq> currentScaleOf service
                     then [(serviceName,
                            applyScaleLimits opts
                              (strategyScale opts (currentScaleOf service) cpu mem))]
                     else []))
       \<and> (toProject names = Inr project
            \<and> Services project serviceName = Some service0
            \<and> (names \<noteq> [] \<longrightarrow> serviceName \<in> set names)
            \<and> envs \<noteq> []
            \<and> (\<forall>e \<in> set envs. serviceName \<in> set (rangeOrder e)
                    \<and> (\<exists>u m. resourceUsage e serviceName = Inr (u, m)))
            \<and> runAutoScale newBackend toProject opts names envs = Inr w
          \<longrightarrow> (\<exists>p. projectServices w serviceName = Some p
                    \<and> minReplicas opts \<le> currentScaleOf p
                    \<and> currentScaleOf p \<le> maxReplicas opts))"
proof -
  have a: "applyScaleLimits opts desired
             = max (minReplicas opts) (min (maxReplicas opts) desired)"
    using assms by (rule applyScaleLimits_max_min)
  have "withinLimits opts (applyScaleLimits opts (strategyScale opts currentScale cpu mem))"
    using assms by (rule applyScaleLimits_within)
  then have b: "minReplicas opts \<le> applyScaleLimits opts (strategyScale opts currentScale cpu mem)"
    and c: "applyScaleLimits opts (strategyScale opts currentScale cpu mem) \<le> maxReplicas opts"
    by (simp_all add: withinLimits_def)
  have d: "servicesAt services v serviceName = Some service
            \<and> resourceUsage env serviceName = Inr (cpu, mem)
          \<longrightarrow> backendCalls (scaleOneService env opts services serviceName v)
                = backendCalls v
                  @ (if applyScaleLimits opts (strategyScale opts (currentScaleOf service) cpu mem)
                          \<noteq> currentScaleOf service
                     then [(serviceName,
                            applyScaleLimits opts
                              (strategyScale opts (currentScaleOf service) cpu mem))]
                     else [])"
    by (simp add: scaleOneService_def Let_def split: option.splits)
  have e: "toProject names = Inr project
            \<and> Services project serviceName = Some service0
            \<and> (names \<noteq> [] \<longrightarrow> serviceName \<in> set names)
            \<and> envs \<noteq> []
            \<and> (\<forall>e \<in> set envs. serviceName \<in> set (rangeOrder e)
                    \<and> (\<exists>u m. resourceUsage e serviceName = Inr (u, m)))
            \<and> runAutoScale newBackend toProject opts names envs = Inr w
          \<longrightarrow> (\<exists>p. projectServices w serviceName = Some p
                    \<and> minReplicas opts \<le> currentScaleOf p
                    \<and> currentScaleOf p \<le> maxReplicas opts)"
  proof (intro impI, elim conjE)
    assume tp: "toProject names = Inr project"
      and sv: "Services project serviceName = Some service0"
      and nm: "names \<noteq> [] \<longrightarrow> serviceName \<in> set names"
      and ne: "envs \<noteq> []"
      and ok: "\<forall>e \<in> set envs. serviceName \<in> set (rangeOrder e)
                    \<and> (\<exists>u m. resourceUsage e serviceName = Inr (u, m))"
      and run: "runAutoScale newBackend toProject opts names envs = Inr w"
    let ?target = "if length names > 0
                   then FilteredServices (filterServices (Services project) names)
                   else ProjectServices"
    from ne obtain e0 rest where envs: "envs = e0 # rest"
      by (cases envs) auto
    with ok obtain u m where in0: "serviceName \<in> set (rangeOrder e0)"
      and use0: "resourceUsage e0 serviceName = Inr (u, m)"
      by auto
    have w: "w = autoScaleLoop opts ?target envs (startWorld opts project)"
      using run tp by (auto simp: runAutoScale_def Let_def split: sum.splits)
    have "coherent opts ?target (startWorld opts project) serviceName"
      using sv nm by (rule startWorld_coherent)
    then have "settled opts w serviceName"
      unfolding w envs using autoScaleLoop_settles [OF assms in0 use0] by blast
    then show "\<exists>p. projectServices w serviceName = Some p
                    \<and> minReplicas opts \<le> currentScaleOf p
                    \<and> currentScaleOf p \<le> maxReplicas opts"
      by (auto simp: settled_def withinLimits_def split: option.splits)
  qed
  from a b c d e show ?thesis by blast
qed

text \<open>
  With the default limits 1 and 10 a decision of 15 becomes 10. \<open>cache\<close> runs at 15;
  under moderate usage the balanced strategy leaves 15 unchanged, the limits turn it
  into 10, and after one pass the project holds a scale within the limits for it.
\<close>

theorem scale_limits_hold_witness:
  "minReplicas defaultOptions \<le> maxReplicas defaultOptions
   \<and> applyScaleLimits defaultOptions 15 = 10
   \<and> servicesAt ProjectServices exampleWorld ''cache'' = Some \<lparr>Scale = Some 15\<rparr>
   \<and> resourceUsage calmEnv ''cache'' = Inr (60, 60)
   \<and> strategyScale defaultOptions 15 60 60 = 15
   \<and> backendCalls (scaleOneService calmEnv defaultOptions ProjectServices ''cache'' exampleWorld)
       = [(''cache'', 10)]
   \<and> exampleToProject [] = Inr exampleProject
   \<and> Services exampleProject ''cache'' = Some \<lparr>Scale = Some 15\<rparr>
   \<and> ''cache'' \<in> set (rangeOrder calmEnv)
   \<and> (\<exists>w p. runAutoScale (Inr ()) exampleToProject defaultOptions [] [calmEnv] = Inr w
            \<and> projectServices w ''cache'' = Some p
            \<and> 1 \<le> currentScaleOf p \<and> currentScaleOf p \<le> 10)"
proof -
  let ?w = "autoScaleLoop defaultOptions ProjectServices [calmEnv]
              (startWorld defaultOptions exampleProject)"
  have h0: "minReplicas defaultOptions \<le> maxReplicas defaultOptions"
    by (simp add: defaultOptions_def)
  have h1: "servicesAt ProjectServices exampleWorld ''cache'' = Some \<lparr>Scale = Some 15\<rparr>"
    by (simp add: servicesAt_def exampleWorld_def exampleServices_def)
  have h2: "resourceUsage calmEnv ''cache'' = Inr (60, 60)"
    by (simp add: calmEnv_def)
  have h3: "exampleToProject [] = Inr exampleProject"
    by (simp add: exampleToProject_def)
  have h4: "Services exampleProject ''cache'' = Some \<lparr>Scale = Some 15\<rparr>"
    by (simp add: exampleProject_def exampleServices_def)
  have h5: "''cache'' \<in> set (rangeOrder calmEnv)"
    by (simp add: calmEnv_def)
  have h6: "runAutoScale (Inr ()) exampleToProject defaultOptions [] [calmEnv] = Inr ?w"
    by (simp add: runAutoScale_def exampleToProject_def)
  have s: "strategyScale defaultOptions 15 60 60 = 15"
    by (simp add: strategyScale_def calculateBalancedScale_def defaultOptions_def)
  have w0: "backendCalls exampleWorld = []"
    by (simp add: exampleWorld_def)
  have lims: "minReplicas defaultOptions = 1" "maxReplicas defaultOptions = 10"
    by (simp_all add: defaultOptions_def)
  note t = scale_limits_hold
             [OF h0, where desired = 15 and currentScale = 15 and cpu = 60 and mem = 60
                and services = ProjectServices and v = exampleWorld
                and serviceName = "''cache''" and service = "\<lparr>Scale = Some 15\<rparr>"
                and env = calmEnv and toProject = exampleToProject and names = "[]"
                and project = exampleProject and ?service0.0 = "\<lparr>Scale = Some 15\<rparr>"
                and envs = "[calmEnv]" and newBackend = "Inr ()" and w = ?w]
  have c1: "applyScaleLimits defaultOptions 15 = 10"
    using t [THEN conjunct1] by (simp add: lims)
  have c2: "backendCalls
              (scaleOneService calmEnv defaultOptions ProjectServices ''cache'' exampleWorld)
              = [(''cache'', 10)]"
    using t [THEN conjunct2, THEN conjunct2, THEN conjunct2, THEN conjunct1] h1 h2 s c1 w0
    by (simp add: currentScaleOf_def)
  have c3: "\<exists>p. projectServices ?w ''cache'' = Some p
            \<and> 1 \<le> currentScaleOf p \<and> currentScaleOf p \<le> 10"
    using t [THEN conjunct2, THEN conjunct2, THEN conjunct2, THEN conjunct2] h2 h3 h4 h5 h6
    by (simp add: lims)
  from h6 c3 have c4: "\<exists>w p. runAutoScale (Inr ()) exampleToProject defaultOptions [] [calmEnv] = Inr w
            \<and> projectServices w ''cache'' = Some p
            \<and> 1 \<le> currentScaleOf p \<and> currentScaleOf p \<le> 10"
    by blast
  from h0 c1 h1 h2 s c2 h3 h4 h5 c4 show ?thesis by blast
qed

end
